theory Spec2Isabelle
  imports Main "HOL-Library.Sublist"
begin

section \<open>JavaScript values used by the code\<close>

text \<open>
  A value that reaches a \<^verbatim>\<open>catch\<close> block is either an instance of \<^verbatim>\<open>Error\<close>, with its
  \<^verbatim>\<open>message\<close>, or any other value, kept here with the string \<^verbatim>\<open>String(err)\<close> gives for it
  (for a plain object that is \<^verbatim>\<open>[object Object]\<close>).
\<close>

datatype js_error = ErrorInstance string | NonError string

text \<open>\<^verbatim>\<open>err instanceof Error ? err.message : String(err)\<close>\<close>

fun errorMessage :: "js_error \<Rightarrow> string" where
  "errorMessage (ErrorInstance message) = message"
| "errorMessage (NonError stringified) = stringified"

text \<open>
  \<^verbatim>\<open>String.prototype.includes\<close>: the second string occurs in the first as a contiguous run.
  Strings are lists of characters; the four markers searched for are ASCII.
\<close>

fun str_includes :: "string \<Rightarrow> string \<Rightarrow> bool" where
  "str_includes [] t = (t = [])"
| "str_includes (c # s) t = (prefix t (c # s) \<or> str_includes s t)"

text \<open>JSON values: request bodies, and the fields the source types as \<^verbatim>\<open>unknown\<close>.\<close>

datatype json =
    JNull
  | JBool bool
  | JNum int
  | JStr string
  | JArr "json list"
  | JObj "(string \<times> json) list"

text \<open>
  An optional field of type \<^verbatim>\<open>string | null\<close> is absent (\<^verbatim>\<open>undefined\<close>), \<^verbatim>\<open>null\<close> or a string;
  \<^verbatim>\<open>x ?? null\<close> sends the first two to \<^verbatim>\<open>null\<close>. For an optional \<^verbatim>\<open>unknown\<close> field the
  absent value is \<open>None\<close> and \<^verbatim>\<open>null\<close> is \<open>JNull\<close>.
\<close>

datatype 'a nullish = Undefined | Null | Defined 'a

fun or_null :: "'a nullish \<Rightarrow> 'a option" where
  "or_null Undefined = None"
| "or_null Null = None"
| "or_null (Defined x) = Some x"

fun json_or_null :: "json option \<Rightarrow> json" where
  "json_or_null None = JNull"
| "json_or_null (Some j) = j"

section \<open>The retrying save operation\<close>

record VideoAnalysisParams =
  youtubeId :: string
  title :: string
  author :: "string option"
  duration :: int
  thumbnailUrl :: "string option"
  transcript :: json
  topics :: json
  summary :: "json option"
  suggestedQuestions :: "json option"
  modelUsed :: "string nullish"
  userId :: "string nullish"
  language :: "string nullish"
  availableLanguages :: "json option"

record SaveResult =
  success :: bool
  videoId :: "string option"
  error :: "string option"
  retriedCount :: int

record RetryOptions =
  maxRetries :: "int option"
  retryDelayMs :: "int option"

text \<open>The argument object of the remote procedure \<^verbatim>\<open>insert_video_analysis_server\<close>.\<close>

record rpc_args =
  p_youtube_id :: string
  p_title :: string
  p_author :: "string option"
  p_duration :: int
  p_thumbnail_url :: "string option"
  p_transcript :: json
  p_topics :: json
  p_summary :: json
  p_suggested_questions :: json
  p_model_used :: "string option"
  p_user_id :: "string option"
  p_language :: "string option"
  p_available_languages :: json

definition make_rpc_args :: "VideoAnalysisParams \<Rightarrow> rpc_args" where
  "make_rpc_args params =
     \<lparr> p_youtube_id = youtubeId params,
       p_title = title params,
       p_author = author params,
       p_duration = duration params,
       p_thumbnail_url = thumbnailUrl params,
       p_transcript = transcript params,
       p_topics = topics params,
       p_summary = json_or_null (summary params),
       p_suggested_questions = json_or_null (suggestedQuestions params),
       p_model_used = or_null (modelUsed params),
       p_user_id = or_null (userId params),
       p_language = or_null (language params),
       p_available_languages = json_or_null (availableLanguages params) \<rparr>"

text \<open>
  One invocation of the remote procedure either resolves to \<^verbatim>\<open>{ data, error }\<close> or rejects.
  The remote side is the environment of the function: \<open>remote n\<close> is what the \<open>n\<close>-th
  invocation (counted from 0) of one run gives. Each pass of the loop invokes the procedure
  exactly once and the counter starts at 0, so pass \<open>attempt\<close> reads \<open>remote (nat attempt)\<close>.
\<close>

datatype rpc_outcome =
    Resolves "string option" "js_error option"
  | Rejects js_error

text \<open>
  The body of the \<^verbatim>\<open>try\<close> block: \<^verbatim>\<open>if (error) throw error\<close>, otherwise the data is returned.
  \<open>Inl\<close> is the value that reaches the \<^verbatim>\<open>catch\<close> block.
\<close>

fun try_rpc :: "rpc_outcome \<Rightarrow> js_error + string option" where
  "try_rpc (Resolves data None) = Inr data"
| "try_rpc (Resolves data (Some e)) = Inl e"
| "try_rpc (Rejects e) = Inl e"

definition isRetryableError :: "string \<Rightarrow> bool" where
  "isRetryableError msg \<longleftrightarrow>
     str_includes msg ''foreign key'' \<or>
     str_includes msg ''profiles'' \<or>
     str_includes msg ''violates foreign key constraint'' \<or>
     str_includes msg ''user_videos_user_id_fkey''"

text \<open>
  What one run does, in order: invocations of the remote procedure, the two log lines and
  the timers it waits for. \<open>WarnRetry\<close> and \<open>ErrorFinal\<close> carry the values the log line prints:
  \<^verbatim>\<open>attempt + 1\<close>, \<^verbatim>\<open>maxRetries\<close>, then the delay and the message, or the caught value.
\<close>

datatype event =
    Rpc rpc_args
  | WarnRetry int int int string
  | Sleep int
  | ErrorFinal int int js_error

definition exhausted :: "int \<Rightarrow> SaveResult" where
  "exhausted max_retries =
     \<lparr> success = False, videoId = None, error = Some ''Max retries exceeded'',
       retriedCount = max_retries \<rparr>"

text \<open>
  The \<^verbatim>\<open>for\<close> loop, from the pass with counter \<open>attempt\<close> on; \<open>tr\<close> is what happened so far.
  After the \<^verbatim>\<open>console.error\<close> of the last branch the \<^verbatim>\<open>catch\<close> block ends, and the loop goes
  on with \<^verbatim>\<open>attempt++\<close> like after \<^verbatim>\<open>continue\<close>.
  \<^verbatim>\<open>maxRetries\<close> and \<^verbatim>\<open>retryDelayMs\<close> (here \<open>max_retries\<close>, \<open>retry_delay_ms\<close>) are integers of
  either sign.
\<close>

function attempt_loop ::
  "(nat \<Rightarrow> rpc_outcome) \<Rightarrow> rpc_args \<Rightarrow> int \<Rightarrow> int \<Rightarrow> int \<Rightarrow> event list
     \<Rightarrow> SaveResult \<times> event list" where
  "attempt_loop remote args max_retries retry_delay_ms attempt tr =
     (if attempt < max_retries then
        (case try_rpc (remote (nat attempt)) of
           Inr data \<Rightarrow>
             (\<lparr> success = True, videoId = data, error = None, retriedCount = attempt \<rparr>,
              tr @ [Rpc args])
         | Inl err \<Rightarrow>
             (if isRetryableError (errorMessage err) \<and> attempt < max_retries - 1 then
                attempt_loop remote args max_retries retry_delay_ms (attempt + 1)
                  (tr @ [Rpc args,
                         WarnRetry (attempt + 1) max_retries (retry_delay_ms * (attempt + 1))
                           (errorMessage err),
                         Sleep (retry_delay_ms * (attempt + 1))])
              else
                attempt_loop remote args max_retries retry_delay_ms (attempt + 1)
                  (tr @ [Rpc args, ErrorFinal (attempt + 1) max_retries err])))
      else (exhausted max_retries, tr))"
  by pat_completeness auto
termination
  by (relation "measure (\<lambda>(remote, args, max_retries, retry_delay_ms, attempt, tr).
        nat (max_retries - attempt))") auto

declare attempt_loop.simps [simp del]

text \<open>
  \<^verbatim>\<open>const { maxRetries = 3, retryDelayMs = 500 } = options ?? {}\<close>: a default applies where
  the options object or the field is absent.
\<close>

definition option_maxRetries :: "RetryOptions option \<Rightarrow> int" where
  "option_maxRetries options =
     (case options of None \<Rightarrow> 3
      | Some opts \<Rightarrow> (case maxRetries opts of None \<Rightarrow> 3 | Some m \<Rightarrow> m))"

definition option_retryDelayMs :: "RetryOptions option \<Rightarrow> int" where
  "option_retryDelayMs options =
     (case options of None \<Rightarrow> 500
      | Some opts \<Rightarrow> (case retryDelayMs opts of None \<Rightarrow> 500 | Some d \<Rightarrow> d))"

definition saveVideoAnalysisWithRetry ::
  "(nat \<Rightarrow> rpc_outcome) \<Rightarrow> VideoAnalysisParams \<Rightarrow> RetryOptions option
     \<Rightarrow> SaveResult \<times> event list" where
  "saveVideoAnalysisWithRetry remote params options =
     attempt_loop remote (make_rpc_args params)
       (option_maxRetries options) (option_retryDelayMs options) 0 []"

text \<open>Readings of a run: how often the remote procedure was invoked, and the timers set.\<close>

fun rpc_calls :: "event list \<Rightarrow> nat" where
  "rpc_calls [] = 0"
| "rpc_calls (Rpc a # tr) = Suc (rpc_calls tr)"
| "rpc_calls (e # tr) = rpc_calls tr"


text \<open>An attempt fails when the \<^verbatim>\<open>catch\<close> block is entered.\<close>

definition attempt_fails :: "rpc_outcome \<Rightarrow> bool" where
  "attempt_fails out \<longleftrightarrow> (case try_rpc out of Inl e \<Rightarrow> True | Inr d \<Rightarrow> False)"


section \<open>The store\<close>

text \<open>
  The tables the code reads and writes, as lists of rows, with the columns the code names.
  The store gives \<^verbatim>\<open>user_videos.id\<close> on insertion; the code only tests its presence.
  \<^verbatim>\<open>video_generations.user_id\<close> may be \<^verbatim>\<open>NULL\<close> (the repair statement tests it).
\<close>

type_synonym timestamp = string

record video_analysis =
  va_id :: string
  va_youtube_id :: string

record user_video =
  uv_id :: nat
  uv_user_id :: string
  uv_video_id :: string
  uv_accessed_at :: timestamp

record profile =
  p_id :: string

record video_generation =
  vg_user_id :: "string option"
  vg_youtube_id :: string
  vg_created_at :: timestamp

record db =
  video_analyses :: "video_analysis list"
  user_videos :: "user_video list"
  profiles :: "profile list"
  video_generations :: "video_generation list"
  next_uv_id :: nat

text \<open>The rows of \<^verbatim>\<open>user_videos\<close> with \<^verbatim>\<open>user_id = u AND video_id = v\<close>.\<close>

definition links_of :: "db \<Rightarrow> string \<Rightarrow> string \<Rightarrow> user_video list" where
  "links_of d u v = filter (\<lambda>r. uv_user_id r = u \<and> uv_video_id r = v) (user_videos d)"

text \<open>The uniqueness constraint on \<^verbatim>\<open>(user_id, video_id)\<close>: at most one link per pair.\<close>

definition unique_links :: "db \<Rightarrow> bool" where
  "unique_links d \<longleftrightarrow> distinct (map (\<lambda>r. (uv_user_id r, uv_video_id r)) (user_videos d))"

text \<open>A plain insertion of one link row, with the next generated id.\<close>

definition add_link :: "db \<Rightarrow> string \<Rightarrow> string \<Rightarrow> timestamp \<Rightarrow> db" where
  "add_link d u v t =
     d \<lparr> user_videos := user_videos d @
           [\<lparr> uv_id = next_uv_id d, uv_user_id = u, uv_video_id = v, uv_accessed_at = t \<rparr>],
         next_uv_id := Suc (next_uv_id d) \<rparr>"

subsection \<open>Requests of the client library\<close>

text \<open>
  A request that resolves gives \<^verbatim>\<open>{ data, error }\<close>; \<open>reply_error\<close> is the message of the
  error object, \<open>None\<close> for \<^verbatim>\<open>null\<close>. A request can also reject, which throws at the
  \<^verbatim>\<open>await\<close>.
\<close>

datatype 'a reply = Reply (reply_data: "'a option") (reply_error: "string option")

datatype 'a round_trip = Resolved "'a reply" | Rejected js_error

text \<open>
  \<^verbatim>\<open>.single()\<close>: the row when exactly one row matches; otherwise no data and an error.
\<close>

definition single_error :: string where
  "single_error = ''JSON object requested, multiple (or no) rows returned''"

fun single :: "'a list \<Rightarrow> 'a reply" where
  "single [r] = Reply (Some r) None"
| "single rows = Reply None (Some single_error)"

text \<open>\<^verbatim>\<open>from('video_analyses').select('id').eq('youtube_id', youtubeId).single()\<close>\<close>

definition select_video :: "db \<Rightarrow> string \<Rightarrow> video_analysis reply" where
  "select_video d y = single (filter (\<lambda>r. va_youtube_id r = y) (video_analyses d))"

text \<open>
  \<^verbatim>\<open>from('user_videos').select('id').eq('user_id', userId).eq('video_id', video.id).single()\<close>
\<close>

definition select_link :: "db \<Rightarrow> string \<Rightarrow> string \<Rightarrow> user_video reply" where
  "select_link d u v = single (links_of d u v)"

text \<open>
  \<^verbatim>\<open>upsert({user_id, video_id, accessed_at}, { onConflict: 'user_id,video_id' })\<close>, executed:
  a row with the same pair takes the new \<^verbatim>\<open>accessed_at\<close>, otherwise the row is inserted.
\<close>

definition upsert_link :: "db \<Rightarrow> string \<Rightarrow> string \<Rightarrow> timestamp \<Rightarrow> db" where
  "upsert_link d u v t =
     (if links_of d u v \<noteq> [] then
        d \<lparr> user_videos :=
              map (\<lambda>r. if uv_user_id r = u \<and> uv_video_id r = v
                        then r \<lparr> uv_accessed_at := t \<rparr> else r) (user_videos d) \<rparr>
      else add_link d u v t)"

text \<open>
  The store and the network are outside the code. Each round trip is either executed by the
  store as above, or answered with an error object and not executed (a violated constraint
  such as \<^verbatim>\<open>user_videos_user_id_fkey\<close>, a policy, an outage), or it throws and is not
  executed. The environment fixes which, for each of the three requests.
\<close>

datatype fault = NoFault | ErrorReply string | Throw js_error

record transport =
  on_video_lookup :: fault
  on_link_lookup :: fault
  on_upsert :: fault

definition no_faults :: transport where
  "no_faults = \<lparr> on_video_lookup = NoFault, on_link_lookup = NoFault, on_upsert = NoFault \<rparr>"

fun throws :: "fault \<Rightarrow> bool" where
  "throws (Throw e) = True"
| "throws f = False"

fun read_request :: "fault \<Rightarrow> 'a reply \<Rightarrow> 'a round_trip" where
  "read_request NoFault r = Resolved r"
| "read_request (ErrorReply m) r = Resolved (Reply None (Some m))"
| "read_request (Throw e) r = Rejected e"

fun write_request :: "fault \<Rightarrow> db \<Rightarrow> db \<Rightarrow> unit round_trip \<times> db" where
  "write_request NoFault d d' = (Resolved (Reply None None), d')"
| "write_request (ErrorReply m) d d' = (Resolved (Reply None (Some m)), d)"
| "write_request (Throw e) d d' = (Rejected e, d)"

text \<open>The requests one run sends, in order.\<close>

datatype request =
    SelectVideo string
  | SelectLink string string
  | UpsertLink string string timestamp

fun is_write :: "request \<Rightarrow> bool" where
  "is_write (UpsertLink u v t) = True"
| "is_write q = False"

section \<open>The linking primitive\<close>

text \<open>
  The result object \<^verbatim>\<open>{ linked, videoId, error }\<close>; the last two fields carry a prefix
  because \<open>SaveResult\<close> has fields of the same names.
\<close>

record LinkResult =
  linked :: bool
  link_videoId :: "string option"
  link_error :: "string option"

text \<open>The \<^verbatim>\<open>catch\<close> block.\<close>

definition link_caught :: "js_error \<Rightarrow> LinkResult" where
  "link_caught err = \<lparr> linked = False, link_videoId = None, link_error = Some (errorMessage err) \<rparr>"

text \<open>
  \<open>ensureUserVideoLink env now d user_id youtube_id\<close> gives the result, the store afterwards
  and the requests sent. \<open>now\<close> is \<^verbatim>\<open>new Date().toISOString()\<close>. The three nested cases are
  the three \<^verbatim>\<open>await\<close>s; a rejected one goes to the \<^verbatim>\<open>catch\<close> block. The error of the second
  request is not read. The parameters \<^verbatim>\<open>userId\<close> and \<^verbatim>\<open>youtubeId\<close> are \<open>user_id\<close> and
  \<open>youtube_id\<close> here.
\<close>

definition ensureUserVideoLink ::
  "transport \<Rightarrow> timestamp \<Rightarrow> db \<Rightarrow> string \<Rightarrow> string \<Rightarrow> LinkResult \<times> db \<times> request list" where
  "ensureUserVideoLink env now d user_id youtube_id =
     (case read_request (on_video_lookup env) (select_video d youtube_id) of
        Rejected err \<Rightarrow> (link_caught err, d, [SelectVideo youtube_id])
      | Resolved (Reply video videoError) \<Rightarrow>
          (case (if videoError \<noteq> None then None else video) of
             None \<Rightarrow>
               (\<lparr> linked = False, link_videoId = None, link_error = Some ''Video not found'' \<rparr>,
                d, [SelectVideo youtube_id])
           | Some video \<Rightarrow>
               (case read_request (on_link_lookup env) (select_link d user_id (va_id video)) of
                  Rejected err \<Rightarrow>
                    (link_caught err, d,
                     [SelectVideo youtube_id, SelectLink user_id (va_id video)])
                | Resolved (Reply (Some existingLink) linkError) \<Rightarrow>
                    (\<lparr> linked = True, link_videoId = Some (va_id video), link_error = None \<rparr>,
                     d, [SelectVideo youtube_id, SelectLink user_id (va_id video)])
                | Resolved (Reply None linkError) \<Rightarrow>
                    (case write_request (on_upsert env) d
                            (upsert_link d user_id (va_id video) now) of
                       (Rejected err, d') \<Rightarrow>
                         (link_caught err, d',
                          [SelectVideo youtube_id, SelectLink user_id (va_id video),
                           UpsertLink user_id (va_id video) now])
                     | (Resolved (Reply none (Some insertError)), d') \<Rightarrow>
                         (\<lparr> linked = False, link_videoId = Some (va_id video),
                            link_error = Some insertError \<rparr>,
                          d',
                          [SelectVideo youtube_id, SelectLink user_id (va_id video),
                           UpsertLink user_id (va_id video) now])
                     | (Resolved (Reply none None), d') \<Rightarrow>
                         (\<lparr> linked = True, link_videoId = Some (va_id video),
                            link_error = None \<rparr>,
                          d',
                          [SelectVideo youtube_id, SelectLink user_id (va_id video),
                           UpsertLink user_id (va_id video) now])))))"

section \<open>The repair endpoint\<close>

text \<open>
  What the handler gets from outside: \<^verbatim>\<open>await req.json()\<close> (the parsed body, or a throw),
  \<^verbatim>\<open>await createClient()\<close> (a client, or a throw), \<^verbatim>\<open>await supabase.auth.getUser()\<close> (the
  \<^verbatim>\<open>data.user\<close> of the answer, \<^verbatim>\<open>null\<close> for nobody, or a throw), the behaviour of the store's
  round trips and the clock.
\<close>

datatype auth_user = AuthUser (auth_id: string)

record request_env =
  req_json :: "js_error + json"
  create_client :: "js_error option"
  get_user :: "js_error + auth_user option"
  store_transport :: transport
  clock :: timestamp

text \<open>
  \<^verbatim>\<open>const { videoId } = value\<close>: \<^verbatim>\<open>null\<close> cannot be destructured (a \<^verbatim>\<open>TypeError\<close>); an object
  gives the property, the last one when the key is repeated in the body, \<open>None\<close>
  (\<^verbatim>\<open>undefined\<close>) when it is absent; any other value has no such property.
\<close>

fun destructure_videoId :: "json \<Rightarrow> js_error + json option" where
  "destructure_videoId JNull = Inl (ErrorInstance ''Cannot destructure property videoId'')"
| "destructure_videoId (JObj members) = Inr (map_of (rev members) ''videoId'')"
| "destructure_videoId j = Inr None"

text \<open>
  \<^verbatim>\<open>!videoId || typeof videoId !== 'string'\<close> is false exactly for a string that is not empty:
  \<open>accepted_videoId\<close> gives that string, and \<open>None\<close> where the condition holds.
\<close>

fun accepted_videoId :: "json option \<Rightarrow> string option" where
  "accepted_videoId (Some (JStr s)) = (if s = [] then None else Some s)"
| "accepted_videoId v = None"

text \<open>Bodies of the JSON responses, and the response with its status (200 when none is given).\<close>

datatype response_body =
    ErrorBody string
  | LinkFailureBody string
  | LinkBody bool "string option"

record response =
  status :: nat
  body :: response_body

text \<open>
  \<^verbatim>\<open>result.error && !result.linked\<close>: a string is truthy unless it is empty, \<^verbatim>\<open>null\<close> is
  falsy. \<open>reported_failure\<close> gives the error where the condition holds.
\<close>

definition reported_failure :: "LinkResult \<Rightarrow> string option" where
  "reported_failure result =
     (case link_error result of
        None \<Rightarrow> None
      | Some e \<Rightarrow> (if e \<noteq> [] \<and> \<not> linked result then Some e else None))"

text \<open>
  The \<^verbatim>\<open>try\<close> block of the handler: \<open>Inl\<close> is a value thrown in it, \<open>Inr\<close> the response it
  returns, with the store afterwards and the requests sent to it.
  \<open>LinkFailureBody e\<close> is \<^verbatim>\<open>{ linked: false, error: e }\<close>, \<open>LinkBody l v\<close> is
  \<^verbatim>\<open>{ linked: l, videoId: v }\<close>.
\<close>

definition handler_try ::
  "request_env \<Rightarrow> db \<Rightarrow> js_error + (response \<times> db \<times> request list)" where
  "handler_try env d =
     (case req_json env of
        Inl err \<Rightarrow> Inl err
      | Inr parsed \<Rightarrow>
          (case destructure_videoId parsed of
             Inl err \<Rightarrow> Inl err
           | Inr v \<Rightarrow>
               (case accepted_videoId v of
                  None \<Rightarrow>
                    Inr (\<lparr> status = 400, body = ErrorBody ''videoId is required'' \<rparr>, d, [])
                | Some video_id \<Rightarrow>
                    (case create_client env of
                       Some err \<Rightarrow> Inl err
                     | None \<Rightarrow>
                         (case get_user env of
                            Inl err \<Rightarrow> Inl err
                          | Inr None \<Rightarrow>
                              Inr (\<lparr> status = 401,
                                     body = ErrorBody ''Authentication required'' \<rparr>, d, [])
                          | Inr (Some user) \<Rightarrow>
                              (case ensureUserVideoLink (store_transport env) (clock env) d
                                      (auth_id user) video_id of
                                 (result, d', sent) \<Rightarrow>
                                   (case reported_failure result of
                                      Some e \<Rightarrow>
                                        Inr (\<lparr> status = 500, body = LinkFailureBody e \<rparr>,
                                             d', sent)
                                    | None \<Rightarrow>
                                        Inr (\<lparr> status = 200,
                                               body = LinkBody (linked result)
                                                        (link_videoId result) \<rparr>,
                                             d', sent))))))))"

text \<open>
  The handler with its \<^verbatim>\<open>catch\<close> block. Nothing is sent to the store before a throw: the
  linking primitive is the last step and does not throw.
\<close>

definition handler :: "request_env \<Rightarrow> db \<Rightarrow> response \<times> db \<times> request list" where
  "handler env d =
     (case handler_try env d of
        Inl err \<Rightarrow>
          (\<lparr> status = 500, body = ErrorBody ''Failed to verify video link'' \<rparr>, d, [])
      | Inr out \<Rightarrow> out)"

section \<open>The bulk repair statement\<close>

text \<open>
  The rows of the \<^verbatim>\<open>SELECT DISTINCT\<close>: for each generation record with a user id, each
  analysis with the same \<^verbatim>\<open>youtube_id\<close> and each profile of that user, the triple
  \<^verbatim>\<open>(vg.user_id, va.id, vg.created_at)\<close>, kept when no link row of the pair exists (the
  \<^verbatim>\<open>LEFT JOIN\<close> with \<^verbatim>\<open>uv.id IS NULL\<close>). The ids of \<^verbatim>\<open>video_analyses\<close> and \<^verbatim>\<open>user_videos\<close> are
  never \<^verbatim>\<open>NULL\<close>, so \<^verbatim>\<open>va.id IS NOT NULL\<close> holds of every joined row.
\<close>

definition repair_rows :: "db \<Rightarrow> (string \<times> string \<times> timestamp) list" where
  "repair_rows d =
     remdups
       [(u, va_id va, vg_created_at vg).
          vg \<leftarrow> video_generations d,
          u \<leftarrow> (case vg_user_id vg of None \<Rightarrow> [] | Some u \<Rightarrow> [u]),
          va \<leftarrow> video_analyses d, va_youtube_id va = vg_youtube_id vg,
          p \<leftarrow> profiles d, p_id p = u,
          links_of d u (va_id va) = []]"

text \<open>
  \<^verbatim>\<open>INSERT ... ON CONFLICT (user_id, video_id) DO NOTHING\<close>: the rows are inserted one after
  the other, and a row whose pair is in the table by then is skipped. No other constraint is
  checked by this function.
\<close>

fun insert_do_nothing :: "(string \<times> string \<times> timestamp) list \<Rightarrow> db \<Rightarrow> db" where
  "insert_do_nothing [] d = d"
| "insert_do_nothing ((u, v, t) # rows) d =
     insert_do_nothing rows (if links_of d u v \<noteq> [] then d else add_link d u v t)"

text \<open>
  One run of the statement. SQL does not fix the order in which the selected rows are
  inserted: \<open>order\<close> is the order the store takes, any function that keeps the set of rows.
  Among rows of the same pair the first in this order wins.
\<close>

definition bulk_repair ::
  "((string \<times> string \<times> timestamp) list \<Rightarrow> (string \<times> string \<times> timestamp) list) \<Rightarrow> db \<Rightarrow> db" where
  "bulk_repair order d = insert_do_nothing (order (repair_rows d)) d"

text \<open>The rows one run of the statement adds: those after the rows that were there.\<close>

definition inserted_by_repair ::
  "((string \<times> string \<times> timestamp) list \<Rightarrow> (string \<times> string \<times> timestamp) list) \<Rightarrow> db
     \<Rightarrow> user_video list" where
  "inserted_by_repair order d =
     drop (length (user_videos d)) (user_videos (bulk_repair order d))"

definition has_profile :: "db \<Rightarrow> string \<Rightarrow> bool" where
  "has_profile d u \<longleftrightarrow> u \<in> set (map p_id (profiles d))"

section \<open>Example inputs\<close>

text \<open>Concrete parameters and remote behaviours at which the theorems below are evaluated.\<close>

definition sample_params :: VideoAnalysisParams where
  "sample_params =
     \<lparr> youtubeId = ''dQw4w9WgXcQ'', title = ''A video'', author = None, duration = 212,
       thumbnailUrl = None, transcript = JArr [], topics = JArr [], summary = None,
       suggestedQuestions = None, modelUsed = Undefined, userId = Defined ''user-1'',
       language = Null, availableLanguages = None \<rparr>"

text \<open>
  A remote side that first answers with an error object that is not an \<^verbatim>\<open>Error\<close>, then rejects
  with a foreign-key violation, then succeeds.
\<close>

definition succeeds_third :: "nat \<Rightarrow> rpc_outcome" where
  "succeeds_third n =
     (if n = 0 then Resolves None (Some (NonError ''[object Object]''))
      else if n = 1 then Rejects (ErrorInstance ''violates foreign key constraint'')
      else Resolves (Some ''video-7'') None)"

text \<open>A remote side at which the profile row never appears: every call is refused.\<close>

definition always_profile_race :: "nat \<Rightarrow> rpc_outcome" where
  "always_profile_race n =
     Resolves None (Some (ErrorInstance
       ''insert or update on table user_videos violates foreign key constraint''))"

text \<open>
  A store with one analysed video, two profiles, no link, and generation records: two of
  \<open>user-1\<close> for the video, one of a user without a profile, one without a user, and one of
  \<open>user-2\<close> for a video that was never analysed.
\<close>

definition example_db :: db where
  "example_db =
     \<lparr> video_analyses = [\<lparr> va_id = ''va-1'', va_youtube_id = ''yt-1'' \<rparr>],
       user_videos = [],
       profiles = [\<lparr> p_id = ''user-1'' \<rparr>, \<lparr> p_id = ''user-2'' \<rparr>],
       video_generations =
         [\<lparr> vg_user_id = Some ''user-1'', vg_youtube_id = ''yt-1'',
             vg_created_at = ''2026-01-20T10:00:00Z'' \<rparr>,
          \<lparr> vg_user_id = Some ''user-1'', vg_youtube_id = ''yt-1'',
             vg_created_at = ''2026-01-21T09:30:00Z'' \<rparr>,
          \<lparr> vg_user_id = Some ''ghost'', vg_youtube_id = ''yt-1'',
             vg_created_at = ''2026-01-20T11:00:00Z'' \<rparr>,
          \<lparr> vg_user_id = None, vg_youtube_id = ''yt-1'',
             vg_created_at = ''2026-01-20T12:00:00Z'' \<rparr>,
          \<lparr> vg_user_id = Some ''user-2'', vg_youtube_id = ''yt-9'',
             vg_created_at = ''2026-01-20T13:00:00Z'' \<rparr>],
       next_uv_id = 1 \<rparr>"

definition example_now :: timestamp where
  "example_now = ''2026-01-22T12:00:00.000Z''"

definition example_later :: timestamp where
  "example_later = ''2026-01-22T12:00:05.000Z''"

text \<open>Round trips of which one fails: a lookup that throws, an upsert that is refused.\<close>

definition video_lookup_throws :: transport where
  "video_lookup_throws =
     \<lparr> on_video_lookup = Throw (ErrorInstance ''fetch failed''), on_link_lookup = NoFault,
       on_upsert = NoFault \<rparr>"

definition link_lookup_throws :: transport where
  "link_lookup_throws =
     \<lparr> on_video_lookup = NoFault, on_link_lookup = Throw (ErrorInstance ''fetch failed''),
       on_upsert = NoFault \<rparr>"

definition upsert_refused :: transport where
  "upsert_refused =
     \<lparr> on_video_lookup = NoFault, on_link_lookup = NoFault,
       on_upsert = ErrorReply ''violates foreign key constraint user_videos_user_id_fkey'' \<rparr>"

definition link_lookup_refused :: transport where
  "link_lookup_refused =
     \<lparr> on_video_lookup = NoFault,
       on_link_lookup = ErrorReply ''permission denied for table user_videos'',
       on_upsert = NoFault \<rparr>"

definition upsert_refused_silently :: transport where
  "upsert_refused_silently =
     \<lparr> on_video_lookup = NoFault, on_link_lookup = NoFault, on_upsert = ErrorReply [] \<rparr>"

text \<open>A request with the given parsed body and authenticated user.\<close>

definition example_request :: "json \<Rightarrow> auth_user option \<Rightarrow> transport \<Rightarrow> request_env" where
  "example_request parsed user tr =
     \<lparr> req_json = Inr parsed, create_client = None, get_user = Inr user,
       store_transport = tr, clock = example_now \<rparr>"

definition unparsable_request :: request_env where
  "unparsable_request =
     \<lparr> req_json = Inl (ErrorInstance ''Unexpected end of JSON input''), create_client = None,
       get_user = Inr None, store_transport = no_faults, clock = example_now \<rparr>"

section \<open>Properties of the retrying save operation\<close>

text \<open>\<open>str_includes\<close> is the contiguous-sublist relation of the list library.\<close>

lemma str_includes_sublist: "str_includes s t \<longleftrightarrow> sublist t s"
  by (induction s) (auto simp: sublist_Cons_right)

lemma rpc_calls_append: "rpc_calls (xs @ ys) = rpc_calls xs + rpc_calls ys"
  by (induction xs rule: rpc_calls.induct) auto


lemma attempt_loop_done:
  "\<not> attempt < m \<Longrightarrow> attempt_loop remote args m d attempt tr = (exhausted m, tr)"
  by (simp add: attempt_loop.simps)

lemma attempt_loop_success:
  "attempt < m \<Longrightarrow> try_rpc (remote (nat attempt)) = Inr data \<Longrightarrow>
   attempt_loop remote args m d attempt tr =
     (\<lparr> success = True, videoId = data, error = None, retriedCount = attempt \<rparr>,
      tr @ [Rpc args])"
  by (simp add: attempt_loop.simps)

lemma attempt_loop_retry:
  "attempt < m \<Longrightarrow> try_rpc (remote (nat attempt)) = Inl err \<Longrightarrow>
   isRetryableError (errorMessage err) \<and> attempt < m - 1 \<Longrightarrow>
   attempt_loop remote args m d attempt tr =
     attempt_loop remote args m d (attempt + 1)
       (tr @ [Rpc args, WarnRetry (attempt + 1) m (d * (attempt + 1)) (errorMessage err),
              Sleep (d * (attempt + 1))])"
  by (subst attempt_loop.simps) simp

lemma attempt_loop_final:
  "attempt < m \<Longrightarrow> try_rpc (remote (nat attempt)) = Inl err \<Longrightarrow>
   \<not> (isRetryableError (errorMessage err) \<and> attempt < m - 1) \<Longrightarrow>
   attempt_loop remote args m d attempt tr =
     attempt_loop remote args m d (attempt + 1)
       (tr @ [Rpc args, ErrorFinal (attempt + 1) m err])"
  by (subst attempt_loop.simps) auto

lemma attempt_loop_failure:
  "\<not> success (fst (attempt_loop remote args m d attempt tr)) \<Longrightarrow>
   fst (attempt_loop remote args m d attempt tr) = exhausted m"
proof (induction remote args m d attempt tr rule: attempt_loop.induct)
  case (1 remote args m d attempt tr)
  show ?case
  proof (cases "attempt < m")
    case False
    then show ?thesis by (simp add: attempt_loop_done)
  next
    case True
    show ?thesis
    proof (cases "try_rpc (remote (nat attempt))")
      case (Inr data)
      with True "1.prems" show ?thesis
        by (simp add: attempt_loop_success)
    next
      case (Inl err)
      show ?thesis
      proof (cases "isRetryableError (errorMessage err) \<and> attempt < m - 1")
        case yes: True
        note eq = attempt_loop_retry [where remote = remote and attempt = attempt, OF True Inl yes]
        from "1.prems" "1.IH"(1) [OF True Inl yes] show ?thesis
          unfolding eq by simp
      next
        case no: False
        note eq = attempt_loop_final [where remote = remote and attempt = attempt, OF True Inl no]
        from "1.prems" "1.IH"(2) [OF True Inl no] show ?thesis
          unfolding eq by simp
      qed
    qed
  qed
qed

lemma attempt_loop_first_success:
  "0 \<le> attempt \<Longrightarrow> attempt \<le> k \<Longrightarrow> k < m \<Longrightarrow>
   (\<forall>j. attempt \<le> j \<and> j < k \<longrightarrow> attempt_fails (remote (nat j))) \<Longrightarrow>
   try_rpc (remote (nat k)) = Inr data \<Longrightarrow>
   fst (attempt_loop remote args m d attempt tr) =
     \<lparr> success = True, videoId = data, error = None, retriedCount = k \<rparr> \<and>
   rpc_calls (snd (attempt_loop remote args m d attempt tr)) = rpc_calls tr + nat (k - attempt + 1)"
proof (induction remote args m d attempt tr rule: attempt_loop.induct)
  case (1 remote args m d attempt tr)
  have lt: "attempt < m" using "1.prems" by simp
  show ?case
  proof (cases "attempt = k")
    case True
    have "try_rpc (remote (nat attempt)) = Inr data" using True "1.prems" by simp
    from attempt_loop_success [where remote = remote and attempt = attempt, OF lt this] True show ?thesis
      by (simp add: rpc_calls_append)
  next
    case False
    then have less: "attempt < k" using "1.prems" by simp
    then have "attempt_fails (remote (nat attempt))" using "1.prems" by simp
    then obtain err where Inl: "try_rpc (remote (nat attempt)) = Inl err"
      by (auto simp: attempt_fails_def split: sum.splits)
    have rest: "\<forall>j. attempt + 1 \<le> j \<and> j < k \<longrightarrow> attempt_fails (remote (nat j))"
      using "1.prems" by simp
    have pre: "0 \<le> attempt + 1" "attempt + 1 \<le> k" using "1.prems" less by simp_all
    have n: "nat (k - (attempt + 1) + 1) + 1 = nat (k - attempt + 1)"
      using less by simp
    show ?thesis
    proof (cases "isRetryableError (errorMessage err) \<and> attempt < m - 1")
      case yes: True
      note eq = attempt_loop_retry [where remote = remote and attempt = attempt, OF lt Inl yes]
      from "1.IH"(1) [OF lt Inl yes pre "1.prems"(3) rest "1.prems"(5)] n
      show ?thesis unfolding eq by (simp add: rpc_calls_append)
    next
      case no: False
      note eq = attempt_loop_final [where remote = remote and attempt = attempt, OF lt Inl no]
      from "1.IH"(2) [OF lt Inl no pre "1.prems"(3) rest "1.prems"(5)] n
      show ?thesis unfolding eq by (simp add: rpc_calls_append)
    qed
  qed
qed

lemma attempt_loop_all_fail:
  "(\<forall>j. attempt \<le> j \<and> j < m \<longrightarrow> attempt_fails (remote (nat j))) \<Longrightarrow>
   fst (attempt_loop remote args m d attempt tr) = exhausted m \<and>
   rpc_calls (snd (attempt_loop remote args m d attempt tr)) = rpc_calls tr + nat (m - attempt)"
proof (induction remote args m d attempt tr rule: attempt_loop.induct)
  case (1 remote args m d attempt tr)
  show ?case
  proof (cases "attempt < m")
    case False
    then show ?thesis by (simp add: attempt_loop_done)
  next
    case lt: True
    then have "attempt_fails (remote (nat attempt))" using "1.prems" by simp
    then obtain err where Inl: "try_rpc (remote (nat attempt)) = Inl err"
      by (auto simp: attempt_fails_def split: sum.splits)
    have rest: "\<forall>j. attempt + 1 \<le> j \<and> j < m \<longrightarrow> attempt_fails (remote (nat j))"
      using "1.prems" by simp
    have n: "nat (m - (attempt + 1)) + 1 = nat (m - attempt)"
      using lt by simp
    show ?thesis
    proof (cases "isRetryableError (errorMessage err) \<and> attempt < m - 1")
      case yes: True
      note eq = attempt_loop_retry [where remote = remote and attempt = attempt, OF lt Inl yes]
      from "1.IH"(1) [OF lt Inl yes rest] n
      show ?thesis unfolding eq by (simp add: rpc_calls_append)
    next
      case no: False
      note eq = attempt_loop_final [where remote = remote and attempt = attempt, OF lt Inl no]
      from "1.IH"(2) [OF lt Inl no rest] n
      show ?thesis unfolding eq by (simp add: rpc_calls_append)
    qed
  qed
qed



text \<open>
  Claim C9. With options \<^verbatim>\<open>{maxRetries: 0}\<close> the remote procedure is never invoked (the run
  has no event at all) and the result is \<^verbatim>\<open>{success: false, videoId: null, error: 'Max retries
  exceeded', retriedCount: 0}\<close>, whatever the remote side, the parameters and the delay are.
\<close>

theorem zero_max_retries:
  "saveVideoAnalysisWithRetry remote params (Some \<lparr> maxRetries = Some 0, retryDelayMs = d \<rparr>) =
     (\<lparr> success = False, videoId = None, error = Some ''Max retries exceeded'',
        retriedCount = 0 \<rparr>, [])"
  by (simp add: saveVideoAnalysisWithRetry_def option_maxRetries_def attempt_loop_done
      exhausted_def)

text \<open>
  Claim C10. Every failing invocation returns the same record, with the fixed string
  \<^verbatim>\<open>Max retries exceeded\<close> as its error: nothing of what the remote calls produced is in it.
\<close>

theorem failure_hides_cause:
  "\<not> success (fst (saveVideoAnalysisWithRetry remote params options)) \<Longrightarrow>
   fst (saveVideoAnalysisWithRetry remote params options) =
     \<lparr> success = False, videoId = None, error = Some ''Max retries exceeded'',
       retriedCount = option_maxRetries options \<rparr>"
  unfolding saveVideoAnalysisWithRetry_def
  by (drule attempt_loop_failure) (simp add: exhausted_def)

text \<open>C10 at a remote side that rejects every call with a connection error.\<close>

theorem failure_hides_cause_witness:
  "\<not> success (fst (saveVideoAnalysisWithRetry
       (\<lambda>n. Rejects (ErrorInstance ''connection reset'')) sample_params None)) \<and>
   fst (saveVideoAnalysisWithRetry
       (\<lambda>n. Rejects (ErrorInstance ''connection reset'')) sample_params None) =
     \<lparr> success = False, videoId = None, error = Some ''Max retries exceeded'',
       retriedCount = 3 \<rparr>"
proof -
  have h: "\<not> success (fst (saveVideoAnalysisWithRetry
       (\<lambda>n. Rejects (ErrorInstance ''connection reset'')) sample_params None))"
    by (simp add: saveVideoAnalysisWithRetry_def option_maxRetries_def attempt_loop.simps
        exhausted_def)
  from h failure_hides_cause [OF h] show ?thesis
    by (simp add: option_maxRetries_def)
qed

text \<open>
  Claim C1 says that after a non-retryable error the remote procedure is not invoked again.
  The code at the default options, with a first call rejected with \<^verbatim>\<open>permission denied\<close> (none
  of the markers occurs in it) and a second call that succeeds: the failure is logged as
  final, then the procedure is invoked a second time and the function returns success with
  \<^verbatim>\<open>retriedCount = 1\<close>.
\<close>

theorem non_retryable_error_is_retried:
  "saveVideoAnalysisWithRetry
     (\<lambda>n. if n = 0 then Rejects (ErrorInstance ''permission denied'')
          else Resolves (Some ''video-1'') None)
     sample_params None =
   (\<lparr> success = True, videoId = Some ''video-1'', error = None, retriedCount = 1 \<rparr>,
    [Rpc (make_rpc_args sample_params),
     ErrorFinal 1 3 (ErrorInstance ''permission denied''),
     Rpc (make_rpc_args sample_params)])"
  by (simp add: saveVideoAnalysisWithRetry_def option_maxRetries_def option_retryDelayMs_def
      attempt_loop.simps isRetryableError_def)

text \<open>
  Claim C4. If the remote call first succeeds at attempt index \<open>k < maxRetries\<close> (the calls
  before it fail, call \<open>k\<close> resolves without an error), the result is success with
  \<^verbatim>\<open>retriedCount = k\<close> and the data of that call as \<^verbatim>\<open>videoId\<close>, after \<open>k + 1\<close> invocations; if
  no attempt succeeds, \<^verbatim>\<open>retriedCount\<close> is \<^verbatim>\<open>maxRetries\<close>. (The bound \<open>maxRetries \<ge> 1\<close> of the
  claim follows from \<open>k < maxRetries\<close> in the first part and is not needed in the second.)
\<close>

theorem first_success_reported:
  "(int k < option_maxRetries options \<and> (\<forall>j < k. attempt_fails (remote j)) \<and>
      remote k = Resolves data None \<longrightarrow>
    fst (saveVideoAnalysisWithRetry remote params options) =
      \<lparr> success = True, videoId = data, error = None, retriedCount = int k \<rparr> \<and>
    rpc_calls (snd (saveVideoAnalysisWithRetry remote params options)) = k + 1) \<and>
   ((\<forall>j. int j < option_maxRetries options \<longrightarrow> attempt_fails (remote j)) \<longrightarrow>
    retriedCount (fst (saveVideoAnalysisWithRetry remote params options)) =
      option_maxRetries options)"
proof (intro conjI impI)
  assume h: "int k < option_maxRetries options \<and> (\<forall>j < k. attempt_fails (remote j)) \<and>
      remote k = Resolves data None"
  then have before: "\<forall>j. 0 \<le> j \<and> j < int k \<longrightarrow> attempt_fails (remote (nat j))"
    by (simp add: nat_less_iff)
  from h have at_k: "try_rpc (remote (nat (int k))) = Inr data" by simp
  from h have lt: "int k < option_maxRetries options" by simp
  note loop = attempt_loop_first_success [where remote = remote and attempt = 0 and k = "int k",
      OF _ _ lt before at_k]
  show "fst (saveVideoAnalysisWithRetry remote params options) =
      \<lparr> success = True, videoId = data, error = None, retriedCount = int k \<rparr>"
    unfolding saveVideoAnalysisWithRetry_def using loop by simp
  show "rpc_calls (snd (saveVideoAnalysisWithRetry remote params options)) = k + 1"
    unfolding saveVideoAnalysisWithRetry_def using loop by (simp add: nat_add_distrib)
next
  assume "\<forall>j. int j < option_maxRetries options \<longrightarrow> attempt_fails (remote j)"
  then have "\<forall>j. 0 \<le> j \<and> j < option_maxRetries options \<longrightarrow> attempt_fails (remote (nat j))"
    by simp
  from attempt_loop_all_fail [OF this]
  show "retriedCount (fst (saveVideoAnalysisWithRetry remote params options)) =
      option_maxRetries options"
    unfolding saveVideoAnalysisWithRetry_def by (simp add: exhausted_def)
qed

text \<open>C4 at a remote side that succeeds at index 2, and at one that never succeeds.\<close>

theorem first_success_reported_witness:
  "int 2 < option_maxRetries None \<and>
   attempt_fails (succeeds_third 0) \<and> attempt_fails (succeeds_third 1) \<and>
   succeeds_third 2 = Resolves (Some ''video-7'') None \<and>
   fst (saveVideoAnalysisWithRetry succeeds_third sample_params None) =
      \<lparr> success = True, videoId = Some ''video-7'', error = None, retriedCount = 2 \<rparr> \<and>
   rpc_calls (snd (saveVideoAnalysisWithRetry succeeds_third sample_params None)) = 3 \<and>
   attempt_fails (always_profile_race 0) \<and> attempt_fails (always_profile_race 1) \<and>
   attempt_fails (always_profile_race 2) \<and>
   retriedCount (fst (saveVideoAnalysisWithRetry always_profile_race sample_params None)) = 3"
proof -
  have a: "int 2 < option_maxRetries None \<and> (\<forall>j < 2. attempt_fails (succeeds_third j)) \<and>
      succeeds_third 2 = Resolves (Some ''video-7'') None"
    by (simp add: option_maxRetries_def succeeds_third_def attempt_fails_def less_2_cases_iff)
  have b: "\<forall>j. int j < option_maxRetries None \<longrightarrow> attempt_fails (always_profile_race j)"
    by (simp add: always_profile_race_def attempt_fails_def)
  from a b
    first_success_reported [of 2 None succeeds_third "Some ''video-7''" sample_params]
    first_success_reported [of 0 None always_profile_race None sample_params]
  show ?thesis by (simp add: option_maxRetries_def less_2_cases_iff)
qed



section \<open>Properties of the linking primitive\<close>

lemma select_video_absent:
  "y \<notin> set (map va_youtube_id (video_analyses d)) \<Longrightarrow>
   select_video d y = Reply None (Some single_error)"
proof -
  assume "y \<notin> set (map va_youtube_id (video_analyses d))"
  then have "filter (\<lambda>r. va_youtube_id r = y) (video_analyses d) = []"
    by (auto simp: filter_empty_conv)
  then show ?thesis by (simp add: select_video_def)
qed

text \<open>
  Claim C7, amended. For an external video id that no \<^verbatim>\<open>video_analyses\<close> row has, the result
  has \<^verbatim>\<open>linked = false\<close> and \<^verbatim>\<open>videoId = null\<close>, the store is unchanged and the only request
  sent is the video lookup: no write is performed. The error is \<^verbatim>\<open>Video not found\<close> whenever
  the lookup is answered (with no row or with an error object); when the lookup throws, the
  \<^verbatim>\<open>catch\<close> block returns the message of the thrown value instead.
\<close>

theorem video_not_found:
  "y \<notin> set (map va_youtube_id (video_analyses d)) \<Longrightarrow>
   ensureUserVideoLink env now d u y =
     (\<lparr> linked = False, link_videoId = None,
        link_error = Some (case on_video_lookup env of
                             NoFault \<Rightarrow> ''Video not found''
                           | ErrorReply m \<Rightarrow> ''Video not found''
                           | Throw e \<Rightarrow> errorMessage e) \<rparr>,
      d, [SelectVideo y])"
  by (cases "on_video_lookup env")
     (simp_all add: ensureUserVideoLink_def select_video_absent link_caught_def)

text \<open>C7 at a store that answers: the result the claim states.\<close>

theorem video_not_found_witness:
  "''yt-404'' \<notin> set (map va_youtube_id (video_analyses example_db)) \<and>
   ensureUserVideoLink no_faults example_now example_db ''user-1'' ''yt-404'' =
     (\<lparr> linked = False, link_videoId = None, link_error = Some ''Video not found'' \<rparr>,
      example_db, [SelectVideo ''yt-404''])"
proof -
  have h: "''yt-404'' \<notin> set (map va_youtube_id (video_analyses example_db))"
    by (simp add: example_db_def)
  from h video_not_found [OF h, of no_faults example_now "''user-1''"] show ?thesis
    by (simp add: no_faults_def)
qed

text \<open>
  Claim C7 as stated fails where the lookup throws: no row has the id, and the error
  returned is the message of the thrown value, not \<^verbatim>\<open>Video not found\<close>.
\<close>

theorem video_not_found_counterexample:
  "''yt-404'' \<notin> set (map va_youtube_id (video_analyses example_db)) \<and>
   fst (ensureUserVideoLink video_lookup_throws example_now example_db ''user-1'' ''yt-404'') =
     \<lparr> linked = False, link_videoId = None, link_error = Some ''fetch failed'' \<rparr> \<and>
   fst (ensureUserVideoLink video_lookup_throws example_now example_db ''user-1'' ''yt-404'') \<noteq>
     \<lparr> linked = False, link_videoId = None, link_error = Some ''Video not found'' \<rparr>"
  by (simp add: ensureUserVideoLink_def video_lookup_throws_def link_caught_def example_db_def)

text \<open>
  Claim C2, amended. When the video lookup succeeds, the returned \<^verbatim>\<open>videoId\<close> is the video's
  internal id on every outcome in which neither later request throws, including a refused
  upsert, which gives \<^verbatim>\<open>linked = false\<close> with the store's error; when the link lookup throws,
  or the upsert is reached and throws, the \<^verbatim>\<open>catch\<close> block returns \<^verbatim>\<open>videoId = null\<close>.
\<close>

theorem video_id_returned:
  assumes "read_request (on_video_lookup env) (select_video d y) =
             Resolved (Reply (Some video) None)"
  shows
    "(\<not> throws (on_link_lookup env) \<and> \<not> throws (on_upsert env) \<longrightarrow>
        link_videoId (fst (ensureUserVideoLink env now d u y)) = Some (va_id video)) \<and>
     (\<not> throws (on_link_lookup env) \<and> on_upsert env = ErrorReply m \<and>
        reply_data (select_link d u (va_id video)) = None \<longrightarrow>
        fst (ensureUserVideoLink env now d u y) =
          \<lparr> linked = False, link_videoId = Some (va_id video), link_error = Some m \<rparr>) \<and>
     (throws (on_link_lookup env) \<longrightarrow>
        link_videoId (fst (ensureUserVideoLink env now d u y)) = None) \<and>
     (\<not> throws (on_link_lookup env) \<and> throws (on_upsert env) \<and>
        reply_data (select_link d u (va_id video)) = None \<longrightarrow>
        link_videoId (fst (ensureUserVideoLink env now d u y)) = None)"
  using assms
  apply (cases "on_link_lookup env"; cases "on_upsert env"; cases "select_link d u (va_id video)")
  apply (auto simp: ensureUserVideoLink_def link_caught_def split: option.splits)
  done

text \<open>
  C2 at a store that answers, at a refused upsert, at a link lookup that throws and at an
  upsert that throws.
\<close>

theorem video_id_returned_witness:
  "read_request NoFault (select_video example_db ''yt-1'') =
     Resolved (Reply (Some \<lparr> va_id = ''va-1'', va_youtube_id = ''yt-1'' \<rparr>) None) \<and>
   link_videoId (fst (ensureUserVideoLink no_faults example_now example_db ''user-1'' ''yt-1'')) =
     Some ''va-1'' \<and>
   fst (ensureUserVideoLink upsert_refused example_now example_db ''ghost'' ''yt-1'') =
     \<lparr> linked = False, link_videoId = Some ''va-1'',
       link_error = Some ''violates foreign key constraint user_videos_user_id_fkey'' \<rparr> \<and>
   link_videoId (fst (ensureUserVideoLink link_lookup_throws example_now example_db
     ''user-1'' ''yt-1'')) = None \<and>
   link_videoId (fst (ensureUserVideoLink
     \<lparr> on_video_lookup = NoFault, on_link_lookup = NoFault,
       on_upsert = Throw (NonError ''timeout'') \<rparr> example_now example_db ''user-1'' ''yt-1'')) = None"
proof -
  let ?video = "\<lparr> va_id = ''va-1'', va_youtube_id = ''yt-1'' \<rparr>"
  let ?upsert_throws = "\<lparr> on_video_lookup = NoFault, on_link_lookup = NoFault,
       on_upsert = Throw (NonError ''timeout'') \<rparr>"
  have v: "read_request NoFault (select_video example_db ''yt-1'') =
      Resolved (Reply (Some ?video) None)"
    by (simp add: select_video_def example_db_def)
  have absent: "reply_data (select_link example_db u ''va-1'') = None" for u
    by (simp add: select_link_def links_of_def example_db_def)
  have a: "read_request (on_video_lookup no_faults) (select_video example_db ''yt-1'') =
      Resolved (Reply (Some ?video) None)"
    using v by (simp add: no_faults_def)
  have b: "read_request (on_video_lookup upsert_refused) (select_video example_db ''yt-1'') =
      Resolved (Reply (Some ?video) None)"
    using v by (simp add: upsert_refused_def)
  have c: "read_request (on_video_lookup link_lookup_throws) (select_video example_db ''yt-1'') =
      Resolved (Reply (Some ?video) None)"
    using v by (simp add: link_lookup_throws_def)
  have e: "read_request (on_video_lookup ?upsert_throws) (select_video example_db ''yt-1'') =
      Resolved (Reply (Some ?video) None)"
    using v by simp
  from v absent
    video_id_returned [OF a, where now = example_now and u = "''user-1''"]
    video_id_returned [OF b, where now = example_now and u = "''ghost''"
      and m = "''violates foreign key constraint user_videos_user_id_fkey''"]
    video_id_returned [OF c, where now = example_now and u = "''user-1''"]
    video_id_returned [OF e, where now = example_now and u = "''user-1''"]
  show ?thesis
    by (simp add: no_faults_def upsert_refused_def link_lookup_throws_def)
qed

text \<open>
  Claim C2 as stated fails where the link lookup throws: the video lookup has succeeded,
  and the \<^verbatim>\<open>videoId\<close> returned is \<^verbatim>\<open>null\<close>.
\<close>

theorem video_id_returned_counterexample:
  "read_request (on_video_lookup link_lookup_throws) (select_video example_db ''yt-1'') =
     Resolved (Reply (Some \<lparr> va_id = ''va-1'', va_youtube_id = ''yt-1'' \<rparr>) None) \<and>
   fst (ensureUserVideoLink link_lookup_throws example_now example_db ''user-1'' ''yt-1'') =
     \<lparr> linked = False, link_videoId = None, link_error = Some ''fetch failed'' \<rparr>"
  by (simp add: ensureUserVideoLink_def link_lookup_throws_def link_caught_def example_db_def
      select_video_def select_link_def links_of_def)

lemma distinct_keys_filter:
  "distinct (map f xs) \<Longrightarrow> length (filter (\<lambda>r. f r = k) xs) \<le> 1"
  by (induction xs) (auto simp: filter_empty_conv image_iff)

lemma unique_links_length: "unique_links d \<Longrightarrow> length (links_of d a b) \<le> 1"
proof -
  assume "unique_links d"
  then have "length (filter (\<lambda>r. (uv_user_id r, uv_video_id r) = (a, b)) (user_videos d)) \<le> 1"
    unfolding unique_links_def by (rule distinct_keys_filter)
  then show ?thesis by (simp add: links_of_def)
qed

lemma links_of_unique:
  "unique_links d \<Longrightarrow> links_of d u v = [] \<or> (\<exists>r. links_of d u v = [r])"
  using unique_links_length [of d u v]
  by (cases "links_of d u v") (auto simp: Suc_le_eq)

lemma links_of_add_link:
  "links_of (add_link d u v t) u v =
     links_of d u v @
       [\<lparr> uv_id = next_uv_id d, uv_user_id = u, uv_video_id = v, uv_accessed_at = t \<rparr>]"
  by (simp add: links_of_def add_link_def)

lemma select_video_add_link: "select_video (add_link d u v t) y = select_video d y"
  by (simp add: select_video_def add_link_def)

lemma touch_keeps_keys:
  "map (\<lambda>r. (uv_user_id r, uv_video_id r))
     (map (\<lambda>r. if uv_user_id r = u \<and> uv_video_id r = v
                then r \<lparr> uv_accessed_at := t \<rparr> else r) rows) =
   map (\<lambda>r. (uv_user_id r, uv_video_id r)) rows"
  by (induction rows) auto

text \<open>The upsert keeps the uniqueness constraint, in its branch of conflict and in the other.\<close>

lemma unique_links_upsert: "unique_links d \<Longrightarrow> unique_links (upsert_link d u v t)"
proof (cases "links_of d u v = []")
  case True
  assume "unique_links d"
  moreover from True have "(u, v) \<notin> set (map (\<lambda>r. (uv_user_id r, uv_video_id r)) (user_videos d))"
    by (auto simp: links_of_def filter_empty_conv)
  ultimately show ?thesis
    using True by (simp add: upsert_link_def add_link_def unique_links_def)
next
  case False
  assume "unique_links d"
  with False show ?thesis
    by (simp add: upsert_link_def unique_links_def touch_keeps_keys del: map_map)
qed

text \<open>An invocation leaves the store as it is or as one upsert makes it.\<close>

lemma store_after_link:
  "fst (snd (ensureUserVideoLink env t d u y)) = d \<or>
   (\<exists>v. fst (snd (ensureUserVideoLink env t d u y)) = upsert_link d u v t)"
  by (cases "on_upsert env")
     (auto simp: ensureUserVideoLink_def
           split: round_trip.splits reply.splits option.splits prod.splits)

lemma unique_links_kept:
  "unique_links d \<Longrightarrow> unique_links (fst (snd (ensureUserVideoLink env t d u y)))"
  using store_after_link [of env t d u y] by (auto simp: unique_links_upsert)

lemma run_link_present:
  "on_video_lookup env = NoFault \<Longrightarrow> on_link_lookup env = NoFault \<Longrightarrow>
   select_video d y = Reply (Some video) None \<Longrightarrow> links_of d u (va_id video) = [r] \<Longrightarrow>
   ensureUserVideoLink env t d u y =
     (\<lparr> linked = True, link_videoId = Some (va_id video), link_error = None \<rparr>, d,
      [SelectVideo y, SelectLink u (va_id video)])"
  by (simp add: ensureUserVideoLink_def select_link_def)

lemma run_link_absent:
  "on_video_lookup env = NoFault \<Longrightarrow> on_link_lookup env = NoFault \<Longrightarrow>
   on_upsert env = NoFault \<Longrightarrow>
   select_video d y = Reply (Some video) None \<Longrightarrow> links_of d u (va_id video) = [] \<Longrightarrow>
   ensureUserVideoLink env t d u y =
     (\<lparr> linked = True, link_videoId = Some (va_id video), link_error = None \<rparr>,
      add_link d u (va_id video) t,
      [SelectVideo y, SelectLink u (va_id video), UpsertLink u (va_id video) t])"
  by (simp add: ensureUserVideoLink_def select_link_def upsert_link_def)

lemma link_twice_answered:
  assumes "unique_links d" and "select_video d y = Reply (Some video) None"
    and "on_video_lookup env = NoFault" and "on_link_lookup env = NoFault"
    and "links_of d u (va_id video) = [] \<longrightarrow> on_upsert env = NoFault"
    and "on_video_lookup env' = NoFault" and "on_link_lookup env' = NoFault"
    and "ensureUserVideoLink env t d u y = (r1, d1, sent1)"
    and "ensureUserVideoLink env' t' d1 u y = (r2, d2, sent2)"
  shows "r1 = \<lparr> linked = True, link_videoId = Some (va_id video), link_error = None \<rparr> \<and>
         r2 = \<lparr> linked = True, link_videoId = Some (va_id video), link_error = None \<rparr> \<and>
         filter is_write sent2 = [] \<and> d2 = d1 \<and>
         length (links_of d2 u (va_id video)) = 1"
proof -
  from links_of_unique [OF assms(1), of u "va_id video"]
  consider "links_of d u (va_id video) = []" | r where "links_of d u (va_id video) = [r]"
    by blast
  then show ?thesis
  proof cases
    case 1
    with assms(5) have up: "on_upsert env = NoFault" by simp
    from run_link_absent [OF assms(3) assms(4) up assms(2) 1, of t] assms(8)
    have first: "r1 = \<lparr> linked = True, link_videoId = Some (va_id video), link_error = None \<rparr>"
      "d1 = add_link d u (va_id video) t" by simp_all
    have v1: "select_video d1 y = Reply (Some video) None"
      using assms(2) first(2) by (simp add: select_video_add_link)
    have l1: "links_of d1 u (va_id video) =
        [\<lparr> uv_id = next_uv_id d, uv_user_id = u, uv_video_id = va_id video,
           uv_accessed_at = t \<rparr>]"
      using 1 first(2) by (simp add: links_of_add_link)
    from run_link_present [OF assms(6) assms(7) v1 l1, of t'] assms(9) first(1) l1
    show ?thesis by auto
  next
    case 2
    from run_link_present [OF assms(3) assms(4) assms(2) 2, of t] assms(8)
    have first: "r1 = \<lparr> linked = True, link_videoId = Some (va_id video), link_error = None \<rparr>"
      "d1 = d" by simp_all
    from run_link_present [OF assms(6) assms(7) assms(2) 2, of t'] assms(9) first 2
    show ?thesis by auto
  qed
qed

text \<open>
  Claim C6, amended. In a store that keeps the uniqueness constraint on
  \<^verbatim>\<open>(user_id, video_id)\<close>, after two invocations in succession the constraint still holds and
  at most one link row exists for any pair, on every outcome: whatever the store answers,
  refuses or throws, in either invocation. Where the video exists (exactly one
  \<^verbatim>\<open>video_analyses\<close> row has the external id) and every request that is sent is answered
  without error (the two lookups of each invocation, and the upsert of the first, which is
  sent when no link row of the pair exists), both invocations return \<^verbatim>\<open>linked = true\<close> with the
  video's internal id, the second sends no write and leaves the store as the first left it,
  and exactly one link row of the pair exists.
\<close>

theorem link_twice:
  assumes "unique_links d"
  shows
    "(case ensureUserVideoLink env t d u y of
        (r1, d1, sent1) \<Rightarrow>
          (case ensureUserVideoLink env' t' d1 u y of
             (r2, d2, sent2) \<Rightarrow>
               unique_links d2 \<and> length (links_of d2 a b) \<le> 1 \<and>
               (select_video d y = Reply (Some video) None \<and>
                on_video_lookup env = NoFault \<and> on_link_lookup env = NoFault \<and>
                (links_of d u (va_id video) = [] \<longrightarrow> on_upsert env = NoFault) \<and>
                on_video_lookup env' = NoFault \<and> on_link_lookup env' = NoFault \<longrightarrow>
                r1 = \<lparr> linked = True, link_videoId = Some (va_id video), link_error = None \<rparr> \<and>
                r2 = \<lparr> linked = True, link_videoId = Some (va_id video), link_error = None \<rparr> \<and>
                filter is_write sent2 = [] \<and> d2 = d1 \<and>
                length (links_of d2 u (va_id video)) = 1)))"
proof -
  obtain r1 d1 sent1 where one: "ensureUserVideoLink env t d u y = (r1, d1, sent1)"
    by (cases "ensureUserVideoLink env t d u y") auto
  obtain r2 d2 sent2 where two: "ensureUserVideoLink env' t' d1 u y = (r2, d2, sent2)"
    by (cases "ensureUserVideoLink env' t' d1 u y") auto
  have "unique_links d1"
    using unique_links_kept [OF assms, of env t u y] by (simp add: one)
  then have u2: "unique_links d2"
    using unique_links_kept [of d1 env' t' u y] by (simp add: two)
  then have le: "length (links_of d2 a b) \<le> 1" by (rule unique_links_length)
  have "r1 = \<lparr> linked = True, link_videoId = Some (va_id video), link_error = None \<rparr> \<and>
        r2 = \<lparr> linked = True, link_videoId = Some (va_id video), link_error = None \<rparr> \<and>
        filter is_write sent2 = [] \<and> d2 = d1 \<and>
        length (links_of d2 u (va_id video)) = 1"
    if "select_video d y = Reply (Some video) None"
      "on_video_lookup env = NoFault" "on_link_lookup env = NoFault"
      "links_of d u (va_id video) = [] \<longrightarrow> on_upsert env = NoFault"
      "on_video_lookup env' = NoFault" "on_link_lookup env' = NoFault"
    using link_twice_answered [OF assms that one two] .
  with u2 le show ?thesis
    by (auto simp: one two)
qed

text \<open>
  C6 at the example store. With every request answered, the first invocation creates the
  link and the second finds it. With the link lookup of the second invocation refused, the
  second invocation sends the upsert, which meets the row of the first: the row takes the new
  time and stays the only one of the pair.
\<close>

theorem link_twice_witness:
  "unique_links example_db \<and>
   select_video example_db ''yt-1'' =
     Reply (Some \<lparr> va_id = ''va-1'', va_youtube_id = ''yt-1'' \<rparr>) None \<and>
   links_of example_db ''user-1'' ''va-1'' = [] \<and>
   ensureUserVideoLink no_faults example_now example_db ''user-1'' ''yt-1'' =
     (\<lparr> linked = True, link_videoId = Some ''va-1'', link_error = None \<rparr>,
      add_link example_db ''user-1'' ''va-1'' example_now,
      [SelectVideo ''yt-1'', SelectLink ''user-1'' ''va-1'',
       UpsertLink ''user-1'' ''va-1'' example_now]) \<and>
   ensureUserVideoLink no_faults example_later
       (add_link example_db ''user-1'' ''va-1'' example_now) ''user-1'' ''yt-1'' =
     (\<lparr> linked = True, link_videoId = Some ''va-1'', link_error = None \<rparr>,
      add_link example_db ''user-1'' ''va-1'' example_now,
      [SelectVideo ''yt-1'', SelectLink ''user-1'' ''va-1'']) \<and>
   length (links_of (add_link example_db ''user-1'' ''va-1'' example_now) ''user-1'' ''va-1'') = 1 \<and>
   user_videos (fst (snd (ensureUserVideoLink link_lookup_refused example_later
       (add_link example_db ''user-1'' ''va-1'' example_now) ''user-1'' ''yt-1''))) =
     [\<lparr> uv_id = 1, uv_user_id = ''user-1'', uv_video_id = ''va-1'',
        uv_accessed_at = example_later \<rparr>] \<and>
   unique_links (fst (snd (ensureUserVideoLink link_lookup_refused example_later
       (add_link example_db ''user-1'' ''va-1'' example_now) ''user-1'' ''yt-1''))) \<and>
   length (links_of (fst (snd (ensureUserVideoLink link_lookup_refused example_later
       (add_link example_db ''user-1'' ''va-1'' example_now) ''user-1'' ''yt-1'')))
     ''user-1'' ''va-1'') \<le> 1"
proof -
  let ?video = "\<lparr> va_id = ''va-1'', va_youtube_id = ''yt-1'' \<rparr>"
  let ?d1 = "add_link example_db ''user-1'' ''va-1'' example_now"
  have u: "unique_links example_db"
    by (simp add: unique_links_def example_db_def)
  have v: "select_video example_db ''yt-1'' = Reply (Some ?video) None"
    by (simp add: select_video_def example_db_def)
  have none: "links_of example_db ''user-1'' ''va-1'' = []"
    by (simp add: links_of_def example_db_def)
  have one: "ensureUserVideoLink no_faults example_now example_db ''user-1'' ''yt-1'' =
      (\<lparr> linked = True, link_videoId = Some ''va-1'', link_error = None \<rparr>, ?d1,
       [SelectVideo ''yt-1'', SelectLink ''user-1'' ''va-1'',
        UpsertLink ''user-1'' ''va-1'' example_now])"
    using run_link_absent [of no_faults example_db "''yt-1''" ?video "''user-1''" example_now]
      v none by (simp add: no_faults_def)
  have rows: "user_videos ?d1 =
      [\<lparr> uv_id = 1, uv_user_id = ''user-1'', uv_video_id = ''va-1'',
         uv_accessed_at = example_now \<rparr>]"
    by (simp add: add_link_def example_db_def)
  have v1: "select_video ?d1 ''yt-1'' = Reply (Some ?video) None"
    using v by (simp add: select_video_add_link)
  have refused: "fst (snd (ensureUserVideoLink link_lookup_refused example_later ?d1
      ''user-1'' ''yt-1'')) = upsert_link ?d1 ''user-1'' ''va-1'' example_later"
    by (simp add: ensureUserVideoLink_def link_lookup_refused_def v1)
  have updated: "user_videos (upsert_link ?d1 ''user-1'' ''va-1'' example_later) =
      [\<lparr> uv_id = 1, uv_user_id = ''user-1'', uv_video_id = ''va-1'',
         uv_accessed_at = example_later \<rparr>]"
    by (simp add: upsert_link_def links_of_def rows)
  from link_twice [OF u, where env = no_faults and env' = no_faults and t = example_now
      and t' = example_later and u = "''user-1''" and y = "''yt-1''" and video = ?video
      and a = "''user-1''" and b = "''va-1''"]
  have answered: "case ensureUserVideoLink no_faults example_later ?d1 ''user-1'' ''yt-1'' of
      (r2, d2, sent2) \<Rightarrow>
        r2 = \<lparr> linked = True, link_videoId = Some ''va-1'', link_error = None \<rparr> \<and>
        filter is_write sent2 = [] \<and> d2 = ?d1 \<and> length (links_of d2 ''user-1'' ''va-1'') = 1"
    unfolding one using v none by (auto simp: no_faults_def split: prod.splits)
  from link_twice [OF u, where env = no_faults and env' = link_lookup_refused
      and t = example_now and t' = example_later and u = "''user-1''" and y = "''yt-1''"
      and video = ?video and a = "''user-1''" and b = "''va-1''"]
  have kept: "unique_links (fst (snd (ensureUserVideoLink link_lookup_refused example_later ?d1
        ''user-1'' ''yt-1''))) \<and>
      length (links_of (fst (snd (ensureUserVideoLink link_lookup_refused example_later ?d1
        ''user-1'' ''yt-1''))) ''user-1'' ''va-1'') \<le> 1"
    unfolding one by (auto split: prod.splits)
  have second: "ensureUserVideoLink no_faults example_later ?d1 ''user-1'' ''yt-1'' =
      (\<lparr> linked = True, link_videoId = Some ''va-1'', link_error = None \<rparr>, ?d1,
       [SelectVideo ''yt-1'', SelectLink ''user-1'' ''va-1''])"
    using run_link_present [of no_faults ?d1 "''yt-1''" ?video "''user-1''" _ example_later] v1
    by (simp add: no_faults_def links_of_def rows)
  from answered second have "length (links_of ?d1 ''user-1'' ''va-1'') = 1" by simp
  with u v none one second kept refused updated show ?thesis by simp
qed

text \<open>
  Claim C6 as stated fails where the store refuses the upsert, as it does for a user whose
  profile row is missing: the video exists, and the invocation returns \<^verbatim>\<open>linked = false\<close>.
\<close>

theorem link_twice_counterexample:
  "select_video example_db ''yt-1'' =
     Reply (Some \<lparr> va_id = ''va-1'', va_youtube_id = ''yt-1'' \<rparr>) None \<and>
   ensureUserVideoLink upsert_refused example_now example_db ''ghost'' ''yt-1'' =
     (\<lparr> linked = False, link_videoId = Some ''va-1'',
        link_error = Some ''violates foreign key constraint user_videos_user_id_fkey'' \<rparr>,
      example_db,
      [SelectVideo ''yt-1'', SelectLink ''ghost'' ''va-1'',
       UpsertLink ''ghost'' ''va-1'' example_now])"
  by (simp add: ensureUserVideoLink_def upsert_refused_def example_db_def select_video_def
      select_link_def links_of_def)

section \<open>Properties of the repair endpoint\<close>

lemma accepted_videoId_Some:
  "accepted_videoId v = Some s \<longleftrightarrow> v = Some (JStr s) \<and> s \<noteq> []"
  by (cases v rule: accepted_videoId.cases) auto

lemma accepted_videoId_None:
  "accepted_videoId v = None \<longleftrightarrow> (\<forall>s. v = Some (JStr s) \<longrightarrow> s = [])"
  by (cases v rule: accepted_videoId.cases) auto

lemma reported_failure_Some:
  "reported_failure r = Some e \<longleftrightarrow> link_error r = Some e \<and> e \<noteq> [] \<and> \<not> linked r"
  by (auto simp: reported_failure_def split: option.splits)

lemma reported_failure_None:
  "reported_failure r = None \<longleftrightarrow> link_error r = None \<or> link_error r = Some [] \<or> linked r"
  by (auto simp: reported_failure_def split: option.splits)

lemma handler_status: "status (fst (handler env d)) \<in> {200, 400, 401, 500}"
  by (simp add: handler_def handler_try_def split: sum.splits option.splits prod.splits)

text \<open>
  Claim C3, amended. With the body parsed and not \<^verbatim>\<open>null\<close>: if its \<^verbatim>\<open>videoId\<close> is missing, not
  a string or the empty string, the response is 400; otherwise, if no authenticated user is
  resolved, it is 401; otherwise, if the linking primitive returns an error that is not
  empty together with \<^verbatim>\<open>linked = false\<close>, it is 500 carrying that error; otherwise it is 200
  with \<^verbatim>\<open>{linked, videoId}\<close>. A throw (of the body parser, of destructuring a \<^verbatim>\<open>null\<close> body,
  of the client factory or of the user lookup) gives the generic 500. Every path gives a
  response, with one of these four statuses.
\<close>

theorem handler_responses:
  "(req_json env = Inr parsed \<and> destructure_videoId parsed = Inr v \<and>
      (\<forall>s. v = Some (JStr s) \<longrightarrow> s = []) \<longrightarrow>
    handler env d = (\<lparr> status = 400, body = ErrorBody ''videoId is required'' \<rparr>, d, [])) \<and>
   (req_json env = Inr parsed \<and> destructure_videoId parsed = Inr (Some (JStr s)) \<and> s \<noteq> [] \<and>
      create_client env = None \<longrightarrow>
    (get_user env = Inr None \<longrightarrow>
       handler env d = (\<lparr> status = 401, body = ErrorBody ''Authentication required'' \<rparr>, d, [])) \<and>
    (get_user env = Inr (Some user) \<and>
       ensureUserVideoLink (store_transport env) (clock env) d (auth_id user) s = (r, d', sent) \<longrightarrow>
       (link_error r = Some e \<and> e \<noteq> [] \<and> \<not> linked r \<longrightarrow>
          handler env d = (\<lparr> status = 500, body = LinkFailureBody e \<rparr>, d', sent)) \<and>
       (link_error r = None \<or> link_error r = Some [] \<or> linked r \<longrightarrow>
          handler env d =
            (\<lparr> status = 200, body = LinkBody (linked r) (link_videoId r) \<rparr>, d', sent)))) \<and>
   (req_json env = Inl err \<or> req_json env = Inr JNull \<or>
    (req_json env = Inr parsed \<and> destructure_videoId parsed = Inr (Some (JStr s)) \<and> s \<noteq> [] \<and>
       (create_client env = Some err \<or> create_client env = None \<and> get_user env = Inl err)) \<longrightarrow>
    handler env d = (\<lparr> status = 500, body = ErrorBody ''Failed to verify video link'' \<rparr>, d, [])) \<and>
   status (fst (handler env d)) \<in> {200, 400, 401, 500}"
proof (intro conjI impI; (elim conjE)?)
  assume "req_json env = Inr parsed" "destructure_videoId parsed = Inr v"
    "\<forall>s. v = Some (JStr s) \<longrightarrow> s = []"
  then show "handler env d = (\<lparr> status = 400, body = ErrorBody ''videoId is required'' \<rparr>, d, [])"
    by (simp add: handler_def handler_try_def accepted_videoId_None [symmetric])
next
  assume "req_json env = Inr parsed" "destructure_videoId parsed = Inr (Some (JStr s))" "s \<noteq> []"
    "create_client env = None" "get_user env = Inr None"
  then show "handler env d =
      (\<lparr> status = 401, body = ErrorBody ''Authentication required'' \<rparr>, d, [])"
    by (simp add: handler_def handler_try_def)
next
  assume "req_json env = Inr parsed" "destructure_videoId parsed = Inr (Some (JStr s))" "s \<noteq> []"
    "create_client env = None" "get_user env = Inr (Some user)"
    "ensureUserVideoLink (store_transport env) (clock env) d (auth_id user) s = (r, d', sent)"
    "link_error r = Some e" "e \<noteq> []" "\<not> linked r"
  then show "handler env d = (\<lparr> status = 500, body = LinkFailureBody e \<rparr>, d', sent)"
    by (simp add: handler_def handler_try_def reported_failure_def)
next
  assume a: "req_json env = Inr parsed" "destructure_videoId parsed = Inr (Some (JStr s))" "s \<noteq> []"
    "create_client env = None" "get_user env = Inr (Some user)"
    "ensureUserVideoLink (store_transport env) (clock env) d (auth_id user) s = (r, d', sent)"
    and b: "link_error r = None \<or> link_error r = Some [] \<or> linked r"
  from b have "reported_failure r = None" by (simp add: reported_failure_None)
  with a show "handler env d =
      (\<lparr> status = 200, body = LinkBody (linked r) (link_videoId r) \<rparr>, d', sent)"
    by (simp add: handler_def handler_try_def)
next
  assume "req_json env = Inl err \<or> req_json env = Inr JNull \<or>
    (req_json env = Inr parsed \<and> destructure_videoId parsed = Inr (Some (JStr s)) \<and> s \<noteq> [] \<and>
       (create_client env = Some err \<or> create_client env = None \<and> get_user env = Inl err))"
  then show "handler env d =
      (\<lparr> status = 500, body = ErrorBody ''Failed to verify video link'' \<rparr>, d, [])"
    by (auto simp: handler_def handler_try_def)
next
  show "status (fst (handler env d)) \<in> {200, 400, 401, 500}" by (rule handler_status)
qed

text \<open>
  C3 at a body without \<^verbatim>\<open>videoId\<close>, at a request of nobody, at a refused upsert, at a
  successful link and at a body that does not parse.
\<close>

theorem handler_responses_witness:
  "handler (example_request (JObj []) (Some (AuthUser ''user-1'')) no_faults) example_db =
     (\<lparr> status = 400, body = ErrorBody ''videoId is required'' \<rparr>, example_db, []) \<and>
   handler (example_request (JObj [(''videoId'', JStr ''yt-1'')]) None no_faults) example_db =
     (\<lparr> status = 401, body = ErrorBody ''Authentication required'' \<rparr>, example_db, []) \<and>
   fst (handler (example_request (JObj [(''videoId'', JStr ''yt-1'')])
          (Some (AuthUser ''ghost'')) upsert_refused) example_db) =
     \<lparr> status = 500,
       body = LinkFailureBody ''violates foreign key constraint user_videos_user_id_fkey'' \<rparr> \<and>
   fst (handler (example_request (JObj [(''videoId'', JStr ''yt-1'')])
          (Some (AuthUser ''user-1'')) no_faults) example_db) =
     \<lparr> status = 200, body = LinkBody True (Some ''va-1'') \<rparr> \<and>
   handler unparsable_request example_db =
     (\<lparr> status = 500, body = ErrorBody ''Failed to verify video link'' \<rparr>, example_db, [])"
proof -
  let ?ok = "JObj [(''videoId'', JStr ''yt-1'')]"
  let ?refused = "example_request ?ok (Some (AuthUser ''ghost'')) upsert_refused"
  let ?linked = "example_request ?ok (Some (AuthUser ''user-1'')) no_faults"
  have refused: "ensureUserVideoLink (store_transport ?refused) (clock ?refused) example_db
      (auth_id (AuthUser ''ghost'')) ''yt-1'' =
      (\<lparr> linked = False, link_videoId = Some ''va-1'',
         link_error = Some ''violates foreign key constraint user_videos_user_id_fkey'' \<rparr>,
       example_db,
       [SelectVideo ''yt-1'', SelectLink ''ghost'' ''va-1'',
        UpsertLink ''ghost'' ''va-1'' example_now])"
    by (simp add: example_request_def ensureUserVideoLink_def upsert_refused_def example_db_def
        select_video_def select_link_def links_of_def)
  have linked: "ensureUserVideoLink (store_transport ?linked) (clock ?linked) example_db
      (auth_id (AuthUser ''user-1'')) ''yt-1'' =
      (\<lparr> linked = True, link_videoId = Some ''va-1'', link_error = None \<rparr>,
       upsert_link example_db ''user-1'' ''va-1'' example_now,
       [SelectVideo ''yt-1'', SelectLink ''user-1'' ''va-1'',
        UpsertLink ''user-1'' ''va-1'' example_now])"
    by (simp add: example_request_def ensureUserVideoLink_def no_faults_def example_db_def
        select_video_def select_link_def links_of_def)
  from refused linked
    handler_responses [where env = "example_request (JObj []) (Some (AuthUser ''user-1'')) no_faults"
      and parsed = "JObj []" and v = None and d = example_db]
    handler_responses [where env = "example_request ?ok None no_faults" and parsed = ?ok
      and s = "''yt-1''" and d = example_db]
    handler_responses [where env = ?refused and parsed = ?ok and s = "''yt-1''"
      and user = "AuthUser ''ghost''" and d = example_db and d' = example_db
      and r = "\<lparr> linked = False, link_videoId = Some ''va-1'',
         link_error = Some ''violates foreign key constraint user_videos_user_id_fkey'' \<rparr>"
      and e = "''violates foreign key constraint user_videos_user_id_fkey''"
      and sent = "[SelectVideo ''yt-1'', SelectLink ''ghost'' ''va-1'',
        UpsertLink ''ghost'' ''va-1'' example_now]"]
    handler_responses [where env = ?linked and parsed = ?ok and s = "''yt-1''"
      and user = "AuthUser ''user-1''" and d = example_db
      and d' = "upsert_link example_db ''user-1'' ''va-1'' example_now"
      and r = "\<lparr> linked = True, link_videoId = Some ''va-1'', link_error = None \<rparr>"
      and sent = "[SelectVideo ''yt-1'', SelectLink ''user-1'' ''va-1'',
        UpsertLink ''user-1'' ''va-1'' example_now]"]
    handler_responses [where env = unparsable_request and d = example_db
      and err = "ErrorInstance ''Unexpected end of JSON input''"]
  show ?thesis
    by (simp add: example_request_def unparsable_request_def)
qed

text \<open>
  Claim C3 as stated fails at two inputs. A body whose \<^verbatim>\<open>videoId\<close> is the empty string, which
  is present and a string, gets 400 though the user is authenticated. A linking result with
  \<^verbatim>\<open>linked = false\<close> and an error that is the empty string, which is not \<^verbatim>\<open>null\<close>, gets 200.
\<close>

theorem handler_responses_counterexample:
  "handler (example_request (JObj [(''videoId'', JStr [])]) (Some (AuthUser ''user-1''))
      no_faults) example_db =
     (\<lparr> status = 400, body = ErrorBody ''videoId is required'' \<rparr>, example_db, []) \<and>
   fst (ensureUserVideoLink upsert_refused_silently example_now example_db ''user-1'' ''yt-1'') =
     \<lparr> linked = False, link_videoId = Some ''va-1'', link_error = Some [] \<rparr> \<and>
   fst (handler (example_request (JObj [(''videoId'', JStr ''yt-1'')])
          (Some (AuthUser ''user-1'')) upsert_refused_silently) example_db) =
     \<lparr> status = 200, body = LinkBody False (Some ''va-1'') \<rparr>"
  by (simp add: handler_def handler_try_def example_request_def reported_failure_def
      ensureUserVideoLink_def upsert_refused_silently_def no_faults_def example_db_def
      select_video_def select_link_def links_of_def)

section \<open>Properties of the bulk repair statement\<close>

lemma add_link_tables [simp]:
  "video_analyses (add_link d u v t) = video_analyses d"
  "profiles (add_link d u v t) = profiles d"
  "video_generations (add_link d u v t) = video_generations d"
  by (simp_all add: add_link_def)

lemma insert_do_nothing_tables [simp]:
  "video_analyses (insert_do_nothing rows d) = video_analyses d"
  "profiles (insert_do_nothing rows d) = profiles d"
  "video_generations (insert_do_nothing rows d) = video_generations d"
  by (induction rows d rule: insert_do_nothing.induct; simp)+

lemma links_of_empty_iff:
  "links_of d u v = [] \<longleftrightarrow> (u, v) \<notin> set (map (\<lambda>r. (uv_user_id r, uv_video_id r)) (user_videos d))"
  by (auto simp: links_of_def filter_empty_conv)

lemma insert_do_nothing_appends:
  "\<exists>new. user_videos (insert_do_nothing rows d) = user_videos d @ new \<and>
     set (map (\<lambda>r. (uv_user_id r, uv_video_id r, uv_accessed_at r)) new) \<subseteq> set rows"
proof (induction rows d rule: insert_do_nothing.induct)
  case (1 d)
  then show ?case by simp
next
  case (2 u v t rows d)
  then obtain new where new:
    "user_videos (insert_do_nothing rows (if links_of d u v \<noteq> [] then d else add_link d u v t)) =
       user_videos (if links_of d u v \<noteq> [] then d else add_link d u v t) @ new"
    "set (map (\<lambda>r. (uv_user_id r, uv_video_id r, uv_accessed_at r)) new) \<subseteq> set rows"
    by blast
  show ?case
  proof (cases "links_of d u v \<noteq> []")
    case True
    with new show ?thesis by auto
  next
    case False
    with new have "user_videos (insert_do_nothing ((u, v, t) # rows) d) =
        user_videos d @
          (\<lparr> uv_id = next_uv_id d, uv_user_id = u, uv_video_id = v, uv_accessed_at = t \<rparr> # new)"
      by (simp add: add_link_def)
    moreover have "set (map (\<lambda>r. (uv_user_id r, uv_video_id r, uv_accessed_at r))
        (\<lparr> uv_id = next_uv_id d, uv_user_id = u, uv_video_id = v, uv_accessed_at = t \<rparr> # new))
          \<subseteq> set ((u, v, t) # rows)"
      using new(2) by auto
    ultimately show ?thesis by blast
  qed
qed

lemma inserted_by_repair_rows:
  assumes "\<And>xs. set (order xs) = set xs"
  shows "user_videos (bulk_repair order d) = user_videos d @ inserted_by_repair order d \<and>
   set (map (\<lambda>r. (uv_user_id r, uv_video_id r, uv_accessed_at r)) (inserted_by_repair order d))
     \<subseteq> set (repair_rows d)"
proof -
  obtain new where new: "user_videos (bulk_repair order d) = user_videos d @ new"
    "set (map (\<lambda>r. (uv_user_id r, uv_video_id r, uv_accessed_at r)) new)
       \<subseteq> set (order (repair_rows d))"
    unfolding bulk_repair_def using insert_do_nothing_appends by blast
  then have "inserted_by_repair order d = new" by (simp add: inserted_by_repair_def)
  with new assms show ?thesis by simp
qed

lemma repair_rows_profile:
  "(u, v, t) \<in> set (repair_rows d) \<Longrightarrow> has_profile d u"
  by (auto simp: repair_rows_def has_profile_def split: option.splits if_splits)

lemma links_kept:
  "links_of d u v \<noteq> [] \<Longrightarrow> links_of (insert_do_nothing rows d) u v \<noteq> []"
proof (induction rows d rule: insert_do_nothing.induct)
  case (1 d)
  then show ?case by simp
next
  case (2 u' v' t rows d)
  have "links_of (if links_of d u' v' \<noteq> [] then d else add_link d u' v' t) u v \<noteq> []"
    using "2.prems" by (auto simp: links_of_def add_link_def)
  from "2.IH" [OF this] show ?case by simp
qed

lemma links_made:
  "(u, v, t) \<in> set rows \<Longrightarrow> links_of (insert_do_nothing rows d) u v \<noteq> []"
proof (induction rows d rule: insert_do_nothing.induct)
  case (1 d)
  then show ?case by simp
next
  case (2 u' v' t' rows d)
  let ?d = "if links_of d u' v' \<noteq> [] then d else add_link d u' v' t'"
  show ?case
  proof (cases "(u, v, t) = (u', v', t')")
    case True
    then have "links_of ?d u v \<noteq> []" by (auto simp: links_of_def add_link_def)
    from links_kept [OF this] show ?thesis by simp
  next
    case False
    with "2.prems" have "(u, v, t) \<in> set rows" by auto
    from "2.IH" [OF this] show ?thesis by simp
  qed
qed

lemma repair_rows_after:
  assumes "\<And>xs. set (order xs) = set xs"
  shows "repair_rows (bulk_repair order d) = []"
proof -
  have "links_of (bulk_repair order d) u (va_id va) \<noteq> []"
    if "vg \<in> set (video_generations d)" "vg_user_id vg = Some u"
      "va \<in> set (video_analyses d)" "va_youtube_id va = vg_youtube_id vg"
      "p \<in> set (profiles d)" "p_id p = u" for vg u va p
  proof (cases "links_of d u (va_id va) = []")
    case False
    then show ?thesis unfolding bulk_repair_def by (rule links_kept)
  next
    case True
    with that have "(u, va_id va, vg_created_at vg) \<in> set (repair_rows d)"
      by (force simp: repair_rows_def)
    then have "(u, va_id va, vg_created_at vg) \<in> set (order (repair_rows d))"
      by (simp add: assms)
    then show ?thesis unfolding bulk_repair_def by (rule links_made)
  qed
  then have "set (repair_rows (bulk_repair order d)) = {}"
    by (auto simp: repair_rows_def bulk_repair_def split: option.splits if_splits)
  then show ?thesis by simp
qed

lemma unique_links_insert:
  "unique_links d \<Longrightarrow> unique_links (insert_do_nothing rows d)"
proof (induction rows d rule: insert_do_nothing.induct)
  case (1 d)
  then show ?case by simp
next
  case (2 u v t rows d)
  have "unique_links (if links_of d u v \<noteq> [] then d else add_link d u v t)"
    using "2.prems" by (auto simp: unique_links_def add_link_def links_of_empty_iff)
  from "2.IH" [OF this] show ?case by simp
qed

text \<open>
  Claim C8. For every state of the store and every order of insertion, the rows the
  statement adds are appended to \<^verbatim>\<open>user_videos\<close> and each has a \<^verbatim>\<open>user_id\<close> with a matching
  \<^verbatim>\<open>profiles\<close> row; a second run right after the first adds no row and leaves the store as
  it is; and a run keeps the at-most-one-link-per-(user, video) invariant.
\<close>

theorem bulk_repair_idempotent:
  assumes "\<And>xs. set (order xs) = set xs" and "\<And>xs. set (order' xs) = set xs"
  shows
    "user_videos (bulk_repair order d) = user_videos d @ inserted_by_repair order d \<and>
     (\<forall>r \<in> set (inserted_by_repair order d). has_profile d (uv_user_id r)) \<and>
     inserted_by_repair order' (bulk_repair order d) = [] \<and>
     bulk_repair order' (bulk_repair order d) = bulk_repair order d \<and>
     (unique_links d \<longrightarrow> unique_links (bulk_repair order d))"
proof (intro conjI ballI impI)
  show "user_videos (bulk_repair order d) = user_videos d @ inserted_by_repair order d"
    using inserted_by_repair_rows [OF assms(1)] by blast
  show "has_profile d (uv_user_id r)" if "r \<in> set (inserted_by_repair order d)" for r
  proof -
    from that inserted_by_repair_rows [OF assms(1), of d]
    have "(uv_user_id r, uv_video_id r, uv_accessed_at r) \<in> set (repair_rows d)" by auto
    then show ?thesis by (rule repair_rows_profile)
  qed
  have "set (order' []) = {}" by (simp add: assms(2))
  then have "order' [] = []" by simp
  then show again: "bulk_repair order' (bulk_repair order d) = bulk_repair order d"
    by (simp add: bulk_repair_def [of order' "bulk_repair order d"]
        repair_rows_after [OF assms(1)])
  show "inserted_by_repair order' (bulk_repair order d) = []"
    by (simp add: inserted_by_repair_def again)
  show "unique_links (bulk_repair order d)" if "unique_links d"
    unfolding bulk_repair_def using that by (rule unique_links_insert)
qed

text \<open>
  C8 at the example store, with the rows inserted in the reverse of the table order: of the
  five generation records one link is made, for the user with a profile and the analysed
  video, with the time of the later record.
\<close>

theorem bulk_repair_idempotent_witness:
  "unique_links example_db \<and>
   inserted_by_repair rev example_db =
     [\<lparr> uv_id = 1, uv_user_id = ''user-1'', uv_video_id = ''va-1'',
        uv_accessed_at = ''2026-01-21T09:30:00Z'' \<rparr>] \<and>
   has_profile example_db ''user-1'' \<and>
   inserted_by_repair (\<lambda>xs. xs) (bulk_repair rev example_db) = [] \<and>
   bulk_repair (\<lambda>xs. xs) (bulk_repair rev example_db) = bulk_repair rev example_db \<and>
   unique_links (bulk_repair rev example_db)"
proof -
  have u: "unique_links example_db"
    by (simp add: unique_links_def example_db_def)
  have rows: "repair_rows example_db =
      [(''user-1'', ''va-1'', ''2026-01-20T10:00:00Z''),
       (''user-1'', ''va-1'', ''2026-01-21T09:30:00Z'')]"
    by (simp add: repair_rows_def example_db_def links_of_def)
  have ins: "inserted_by_repair rev example_db =
     [\<lparr> uv_id = 1, uv_user_id = ''user-1'', uv_video_id = ''va-1'',
        uv_accessed_at = ''2026-01-21T09:30:00Z'' \<rparr>]"
    by (simp add: inserted_by_repair_def bulk_repair_def rows)
       (simp add: example_db_def links_of_def add_link_def)
  from u ins bulk_repair_idempotent [of rev "\<lambda>xs. xs" example_db] show ?thesis by simp
qed

end
